theory Spec2Isabelle
  imports Complex_Main
begin

section \<open>Python strings\<close>

text \<open>
  A Python \<open>str\<close> is modelled as a \<^typ>\<open>string\<close>; a \<^typ>\<open>char\<close> stands for the code point
  of the same number, so the model covers the text whose code points lie below 256 (the
  manifest is opened with \<open>encoding="ASCII"\<close>, so its lines hold code points below 128 only).
\<close>

text \<open>\<open>str.isspace\<close> on one character, for the code points below 256.\<close>

definition py_isspace :: "char \<Rightarrow> bool" where
  "py_isspace c = (c \<in> set [CHR 0x09, CHR 0x0A, CHR 0x0B, CHR 0x0C, CHR 0x0D,
                               CHR 0x1C, CHR 0x1D, CHR 0x1E, CHR 0x1F, CHR 0x20,
                               CHR 0x85, CHR 0xA0])"

text \<open>\<open>s.strip()\<close>: whitespace removed at both ends.\<close>

definition py_strip :: "string \<Rightarrow> string" where
  "py_strip s = rev (dropWhile py_isspace (rev (dropWhile py_isspace s)))"

text \<open>\<open>s.lstrip(chars)\<close> and \<open>s.strip(chars)\<close>: the characters of \<open>chars\<close> removed at the ends.\<close>

definition py_lstrip_chars :: "string \<Rightarrow> string \<Rightarrow> string" where
  "py_lstrip_chars chars s = dropWhile (\<lambda>c. c \<in> set chars) s"

definition py_strip_chars :: "string \<Rightarrow> string \<Rightarrow> string" where
  "py_strip_chars chars s = rev (py_lstrip_chars chars (rev (py_lstrip_chars chars s)))"

text \<open>
  \<open>s.split(sep)\<close> for a separator of one character: one more piece than there are
  separators, empty pieces kept (\<open>"".split("/")\<close> is \<open>[""]\<close>).
\<close>

fun py_split :: "char \<Rightarrow> string \<Rightarrow> string list" where
  "py_split sep [] = [[]]"
| "py_split sep (c # cs) =
     (if c = sep then [] # py_split sep cs
      else (case py_split sep cs of
              [] \<Rightarrow> [[c]]
            | w # ws \<Rightarrow> (c # w) # ws))"

text \<open>\<open>s.split(sep, 1)\<close> when \<open>sep\<close> occurs in \<open>s\<close>: the text before and after its first occurrence.\<close>

definition py_split_once :: "char \<Rightarrow> string \<Rightarrow> string \<times> string" where
  "py_split_once sep s = (takeWhile (\<lambda>c. c \<noteq> sep) s, drop 1 (dropWhile (\<lambda>c. c \<noteq> sep) s))"

text \<open>\<open>s.startswith(p)\<close> and the substring test \<open>sub in s\<close>.\<close>

fun py_startswith :: "string \<Rightarrow> string \<Rightarrow> bool" where
  "py_startswith s [] = True"
| "py_startswith [] (p # ps) = False"
| "py_startswith (c # cs) (p # ps) = (c = p \<and> py_startswith cs ps)"

fun py_in :: "string \<Rightarrow> string \<Rightarrow> bool" where
  "py_in sub [] = (sub = [])"
| "py_in sub (c # cs) = (py_startswith (c # cs) sub \<or> py_in sub cs)"

text \<open>
  \<open>s.lower()\<close>, for the code points below 256: the letters \<open>A\<close> to \<open>Z\<close> and the
  capital letters of Latin-1 (0xC0 to 0xDE but the multiplication sign 0xD7) move up by 32.
\<close>

definition py_lower_char :: "char \<Rightarrow> char" where
  "py_lower_char c =
     (let n = (of_char c :: nat) in
      if (65 \<le> n \<and> n \<le> 90) \<or> (192 \<le> n \<and> n \<le> 222 \<and> n \<noteq> 215)
      then char_of (n + 32) else c)"

definition py_lower :: "string \<Rightarrow> string" where
  "py_lower s = map py_lower_char s"

text \<open>\<open>s.find(c, k)\<close> and \<open>s.rfind(c)\<close> for one character: an index, or \<open>-1\<close>.\<close>

definition py_find :: "char \<Rightarrow> nat \<Rightarrow> string \<Rightarrow> int" where
  "py_find c k s =
     (if c \<in> set (drop k s) then int (k + length (takeWhile (\<lambda>x. x \<noteq> c) (drop k s))) else - 1)"

definition py_rfind :: "char \<Rightarrow> string \<Rightarrow> int" where
  "py_rfind c s =
     (if c \<in> set s then int (length s - 1 - length (takeWhile (\<lambda>x. x \<noteq> c) (rev s))) else - 1)"

text \<open>The slices \<open>s[:i]\<close> and \<open>s[i:]\<close> for an index \<open>i \<ge> -1\<close>.\<close>

definition py_slice_to :: "int \<Rightarrow> string \<Rightarrow> string" where
  "py_slice_to i s = (if i < 0 then take (length s - nat (- i)) s else take (nat i) s)"

definition py_slice_from :: "int \<Rightarrow> string \<Rightarrow> string" where
  "py_slice_from i s = (if i < 0 then drop (length s - nat (- i)) s else drop (nat i) s)"

section \<open>Exceptions\<close>

text \<open>
  A raised exception is a value. \<open>ValueError\<close> carries its message;
  \<open>UnicodeDecodeError\<close> (a subclass of \<open>ValueError\<close>) is what the ASCII codec raises on a
  byte from 0x80 on; \<open>OtherException\<close> is any other subclass of \<open>Exception\<close>,
  \<open>NonException\<close> a \<open>BaseException\<close> that is not an \<open>Exception\<close> (\<open>KeyboardInterrupt\<close>,
  \<open>SystemExit\<close>), which \<open>except Exception\<close> lets through.
\<close>

datatype error =
    ValueError string
  | UnicodeDecodeError
  | OtherException string
  | NonException string

fun is_Exception :: "error \<Rightarrow> bool" where
  "is_Exception (ValueError m) = True"
| "is_Exception UnicodeDecodeError = True"
| "is_Exception (OtherException m) = True"
| "is_Exception (NonException m) = False"

section \<open>The library's \<open>urllib.parse.urlparse\<close>\<close>

text \<open>
  \<open>url_class.py\<close> reads a link through \<open>urlparse\<close> of the Python library and uses the
  \<open>netloc\<close> and \<open>path\<close> of the result. The functions below follow
  \<open>urllib/parse.py\<close> of Python 3.11 (\<open>urlsplit\<close>, \<open>_splitnetloc\<close>, \<open>_splitparams\<close>, \<open>urlparse\<close>) for a \<open>str\<close>
  argument and the default arguments \<open>scheme=''\<close>, \<open>allow_fragments=True\<close>.

  The check of a bracketed host (\<open>_check_bracketed_host\<close>: \<open>ipaddress.ip_address\<close> and a
  regular expression, present from Python 3.11.4) is a parameter \<open>chk\<close>: it gets the
  text between the brackets and returns the exception it raises, if any.
  \<open>_checknetloc\<close> is left out: it raises only when NFKC normalisation of the netloc
  brings in one of \<open>/?#@:\<close>, which no code point below 256 does.
\<close>

record ParseResult =
  scheme :: string
  netloc :: string
  path :: string
  params :: string
  query :: string
  fragment :: string

definition scheme_chars :: string where
  "scheme_chars = ''abcdefghijklmnopqrstuvwxyzABCDEFGHIJKLMNOPQRSTUVWXYZ0123456789+-.''"

definition uses_params :: "string list" where
  "uses_params = ['''', ''ftp'', ''hdl'', ''prospero'', ''http'', ''imap'',
                  ''https'', ''shttp'', ''rtsp'', ''rtsps'', ''rtspu'', ''sip'',
                  ''sips'', ''mms'', ''sftp'', ''tel'']"

text \<open>\<open>_WHATWG_C0_CONTROL_OR_SPACE\<close>: the code points 0 to 32.\<close>

definition c0_control_or_space :: "char \<Rightarrow> bool" where
  "c0_control_or_space c = ((of_char c :: nat) \<le> 32)"

text \<open>\<open>_UNSAFE_URL_BYTES_TO_REMOVE\<close>: tab, carriage return, line feed.\<close>

definition unsafe_url_bytes :: string where
  "unsafe_url_bytes = [CHR 0x09, CHR 0x0D, CHR 0x0A]"

definition ascii_alpha :: "char \<Rightarrow> bool" where
  "ascii_alpha c =
     (let n = (of_char c :: nat) in (65 \<le> n \<and> n \<le> 90) \<or> (97 \<le> n \<and> n \<le> 122))"

text \<open>
  The scheme: \<open>i = url.find(':')\<close>; when \<open>i > 0\<close>, \<open>url[0]\<close> is an ASCII letter and every
  character of \<open>url[:i]\<close> is a scheme character, the scheme is \<open>url[:i].lower()\<close> and the
  rest is \<open>url[i+1:]\<close>.
\<close>

definition split_scheme :: "string \<Rightarrow> string \<times> string" where
  "split_scheme url =
     (let i = py_find (CHR '':'') 0 url in
      if i > 0 \<and> ascii_alpha (hd url) \<and> list_all (\<lambda>c. c \<in> set scheme_chars) (py_slice_to i url)
      then (py_lower (py_slice_to i url), py_slice_from (i + 1) url)
      else ('''', url))"

text \<open>\<open>_splitnetloc(url, 2)\<close>: the netloc runs from index 2 to the first of \<open>/ ? #\<close>.\<close>

definition splitnetloc :: "string \<Rightarrow> string \<times> string" where
  "splitnetloc url =
     (takeWhile (\<lambda>c. c \<notin> set ''/?#'') (drop 2 url),
      dropWhile (\<lambda>c. c \<notin> set ''/?#'') (drop 2 url))"

text \<open>\<open>netloc.partition('[')[2].partition(']')[0]\<close>.\<close>

definition bracketed_host :: "string \<Rightarrow> string" where
  "bracketed_host nl =
     takeWhile (\<lambda>c. c \<noteq> CHR '']'') (drop 1 (dropWhile (\<lambda>c. c \<noteq> CHR ''['') nl))"

text \<open>
  The splitting steps of \<open>urlsplit\<close>, none of which raises: whether a netloc was read
  (\<open>url[:2] == '//'\<close>), the scheme, the netloc, the path, the query and the fragment.
\<close>

definition urlsplit_fields ::
  "string \<Rightarrow> bool \<times> string \<times> string \<times> string \<times> string \<times> string"
where
  "urlsplit_fields url0 =
     (let url1 = filter (\<lambda>c. c \<notin> set unsafe_url_bytes) (dropWhile c0_control_or_space url0);
          (sch, url2) = split_scheme url1;
          has_netloc = (take 2 url2 = ''//'');
          (nl, url3) = (if has_netloc then splitnetloc url2 else ('''', url2));
          (url4, frag) = (if CHR ''#'' \<in> set url3 then py_split_once (CHR ''#'') url3
                          else (url3, ''''));
          (url5, qry) = (if CHR ''?'' \<in> set url4 then py_split_once (CHR ''?'') url4
                         else (url4, ''''))
      in (has_netloc, sch, nl, url5, qry, frag))"

text \<open>
  The checks \<open>urlsplit\<close> makes on a netloc it has read: a bracket without its partner is
  \<open>ValueError("Invalid IPv6 URL")\<close>; with both brackets the bracketed host is checked.
\<close>

definition netloc_check :: "(string \<Rightarrow> error option) \<Rightarrow> bool \<Rightarrow> string \<Rightarrow> error option" where
  "netloc_check chk has_netloc nl =
     (let lb = (CHR ''['' \<in> set nl); rb = (CHR '']'' \<in> set nl) in
      if has_netloc \<and> ((lb \<and> \<not> rb) \<or> (rb \<and> \<not> lb)) then Some (ValueError ''Invalid IPv6 URL'')
      else if has_netloc \<and> lb \<and> rb then chk (bracketed_host nl)
      else None)"

definition urlsplit ::
  "(string \<Rightarrow> error option) \<Rightarrow> string \<Rightarrow> error + (string \<times> string \<times> string \<times> string \<times> string)"
where
  "urlsplit chk url =
     (let (has_netloc, sch, nl, p, qry, frag) = urlsplit_fields url in
      case netloc_check chk has_netloc nl of
        Some e \<Rightarrow> Inl e
      | None \<Rightarrow> Inr (sch, nl, p, qry, frag))"

definition splitparams :: "string \<Rightarrow> string \<times> string" where
  "splitparams url =
     (if CHR ''/'' \<in> set url
      then (let i = py_find (CHR '';'') (nat (py_rfind (CHR ''/'') url)) url in
            if i < 0 then (url, '''') else (py_slice_to i url, py_slice_from (i + 1) url))
      else (let i = py_find (CHR '';'') 0 url in
            (py_slice_to i url, py_slice_from (i + 1) url)))"

definition urlparse :: "(string \<Rightarrow> error option) \<Rightarrow> string \<Rightarrow> error + ParseResult" where
  "urlparse chk url =
     (case urlsplit chk url of
        Inl e \<Rightarrow> Inl e
      | Inr (sch, nl, url', qry, frag) \<Rightarrow>
          (let (p, prm) = (if sch \<in> set uses_params \<and> CHR '';'' \<in> set url'
                           then splitparams url' else (url', ''''))
           in Inr \<lparr>scheme = sch, netloc = nl, path = p, params = prm,
                    query = qry, fragment = frag\<rparr>))"

text \<open>A library without the check of bracketed hosts (Python before 3.11.4).\<close>

definition no_bracket_check :: "string \<Rightarrow> error option" where
  "no_bracket_check h = None"

text \<open>
  The netloc and the path that \<open>urlparse\<close> computes for a link, as total functions of the
  link: they are what the result holds whenever \<open>urlparse\<close> returns.
\<close>

definition url_netloc :: "string \<Rightarrow> string" where
  "url_netloc url = (let (has_netloc, sch, nl, p, qry, frag) = urlsplit_fields url in nl)"

definition url_path :: "string \<Rightarrow> string" where
  "url_path url =
     (let (has_netloc, sch, nl, p, qry, frag) = urlsplit_fields url in
      if sch \<in> set uses_params \<and> CHR '';'' \<in> set p then fst (splitparams p) else p)"

section \<open>\<open>src/url_class.py\<close>\<close>

text \<open>
  The dataclasses. The field \<open>rev\<close> is written \<open>rev'\<close>, the name \<open>rev\<close> being the reversal
  of lists.
\<close>

record Code =
  link :: string
  namespace :: string

record Dataset =
  link :: string
  namespace :: string
  repo :: string
  rev' :: string

record Model =
  link :: string
  namespace :: string
  repo :: string
  rev' :: string

record ProjectGroup =
  code :: "Code option"
  dataset :: "Dataset option"
  model :: "Model option"

text \<open>\<open>parsed.path.strip("/").split("/")\<close>.\<close>

definition path_parts :: "string \<Rightarrow> string list" where
  "path_parts p = py_split (CHR ''/'') (py_strip_chars ''/'' p)"

definition parse_huggingface_url ::
  "(string \<Rightarrow> error option) \<Rightarrow> string \<Rightarrow> error + (string \<times> string \<times> string)"
where
  "parse_huggingface_url chk url =
     (case urlparse chk url of
        Inl e \<Rightarrow> Inl e
      | Inr parsed \<Rightarrow>
          (let parts = path_parts (path parsed) in
           if length parts < 2 then Inl (ValueError (''Invalid Hugging Face URL: '' @ url))
           else (let ns = parts ! 0;
                     rp = parts ! 1;
                     rv = (if length parts \<ge> 4 \<and> parts ! 2 = ''tree'' then parts ! 3
                           else ''main'')
                 in Inr (ns, rp, rv))))"

definition parse_dataset_url :: "(string \<Rightarrow> error option) \<Rightarrow> string \<Rightarrow> error + string" where
  "parse_dataset_url chk url =
     (case urlparse chk url of
        Inl e \<Rightarrow> Inl e
      | Inr parsed \<Rightarrow>
          if py_in ''huggingface.co'' (netloc parsed)
          then (let parts = path_parts (path parsed) in
                if length parts < 2 \<or> parts ! 0 \<noteq> ''datasets''
                then Inl (ValueError (''Invalid Hugging Face dataset URL: '' @ url))
                else Inr (last parts))
          else if py_in ''github.com'' (netloc parsed) then Inr url
          else Inl (ValueError (''Unsupported dataset URL: '' @ url)))"

text \<open>\<open>while len(parts) < 3: parts.append("")\<close>.\<close>

function pad_parts :: "string list \<Rightarrow> string list" where
  "pad_parts parts = (if length parts < 3 then pad_parts (parts @ ['''']) else parts)"
  by pat_completeness auto
termination
  by (relation "measure (\<lambda>parts. 3 - length parts)") auto

declare pad_parts.simps [simp del]

text \<open>Sequencing of calls that may raise: the first exception leaves the function.\<close>

definition bind_err :: "error + 'a \<Rightarrow> ('a \<Rightarrow> error + 'b) \<Rightarrow> error + 'b" where
  "bind_err m f = (case m of Inl e \<Rightarrow> Inl e | Inr x \<Rightarrow> f x)"

text \<open>
  The body of the loop for one line that is not blank after \<open>strip\<close>. The unpacking
  \<open>code_link, dataset_link, model_link = parts\<close> raises \<open>ValueError\<close> unless \<open>parts\<close> has
  three entries. The model link is parsed first (and again where the \<open>Model\<close> is built),
  then the dataset link.
\<close>

definition parse_line :: "(string \<Rightarrow> error option) \<Rightarrow> string \<Rightarrow> error + ProjectGroup" where
  "parse_line chk line =
     (case pad_parts (map py_strip (py_split (CHR '','') line)) of
        [code_link, dataset_link, model_link] \<Rightarrow>
          bind_err (if model_link \<noteq> [] then parse_huggingface_url chk model_link
                    else Inr ('''', '''', ''main''))
            (\<lambda>first_parse.
          let code_obj = (if code_link \<noteq> []
                          then Some \<lparr>Code.link = code_link, Code.namespace = ''''\<rparr>
                          else None)
          in
          bind_err (if dataset_link \<noteq> []
                    then bind_err (parse_dataset_url chk dataset_link)
                           (\<lambda>data_repo. Inr (Some \<lparr>Dataset.link = dataset_link,
                                Dataset.namespace = '''', Dataset.repo = data_repo,
                                Dataset.rev' = ''''\<rparr>))
                    else Inr None)
            (\<lambda>dataset_obj.
          bind_err (if model_link \<noteq> []
                    then bind_err (parse_huggingface_url chk model_link)
                           (\<lambda>(ns, rp, rv). Inr (Some \<lparr>Model.link = model_link,
                                Model.namespace = ns, Model.repo = rp, Model.rev' = rv\<rparr>))
                    else Inr None)
            (\<lambda>model_obj.
          Inr \<lparr>code = code_obj, dataset = dataset_obj, model = model_obj\<rparr>)))
      | _ \<Rightarrow> Inl (ValueError ''too many values to unpack (expected 3)''))"

text \<open>
  \<open>path.open("r", encoding="ASCII")\<close>: the file is read as ASCII text, and a byte from
  0x80 on raises \<open>UnicodeDecodeError\<close>. A text is ASCII when each of its bytes is below.
\<close>

definition ascii_bytes :: "string \<Rightarrow> bool" where
  "ascii_bytes s = list_all (\<lambda>c. (of_char c :: nat) < 128) s"

text \<open>
  The loop over the lines of the file, with the list \<open>project_groups\<close> as accumulator.
  The argument \<open>file_lines\<close> is the file as the sequence of its lines, each a string of
  bytes. The reader decodes the file chunk by chunk, a whole chunk at once, before it
  hands out the first line that ends in the chunk: so when the loop gets a line, the
  reader has decoded that line and some bytes after it, and has raised
  \<open>UnicodeDecodeError\<close> if one of them is not ASCII. How many bytes after the line are
  decoded depends on the sizes of the chunks, which are the platform's: the head of
  \<open>ahead\<close> gives that number for the line at hand (none when the list is used up). A
  raise of the reader or of the body leaves the function, so no list is returned.
\<close>

definition bytes_ahead :: "nat list \<Rightarrow> nat" where
  "bytes_ahead ahead = (case ahead of [] \<Rightarrow> 0 | a # as \<Rightarrow> a)"

fun parse_lines ::
  "(string \<Rightarrow> error option) \<Rightarrow> nat list \<Rightarrow> ProjectGroup list \<Rightarrow> string list
     \<Rightarrow> error + ProjectGroup list"
where
  "parse_lines chk ahead project_groups [] = Inr project_groups"
| "parse_lines chk ahead project_groups (l # ls) =
     (if \<not> ascii_bytes (l @ take (bytes_ahead ahead) (concat ls)) then Inl UnicodeDecodeError
      else (let line = py_strip l in
            if line = [] then parse_lines chk (tl ahead) project_groups ls
            else (case parse_line chk line of
                    Inl e \<Rightarrow> Inl e
                  | Inr grp \<Rightarrow> parse_lines chk (tl ahead) (project_groups @ [grp]) ls)))"

definition parse_project_file ::
  "(string \<Rightarrow> error option) \<Rightarrow> nat list \<Rightarrow> string list \<Rightarrow> error + ProjectGroup list"
where
  "parse_project_file chk ahead file_lines = parse_lines chk ahead [] file_lines"

subsection \<open>Vocabulary for the properties of the manifest parser\<close>

text \<open>
  A line is blank when nothing is left of it after \<open>strip\<close>. Its fields are the pieces
  between the commas of the stripped line, each stripped; a field the line does not have
  reads as the empty string.
\<close>

definition blank_line :: "string \<Rightarrow> bool" where
  "blank_line l = (py_strip l = [])"

definition line_fields :: "string \<Rightarrow> string list" where
  "line_fields l = map py_strip (py_split (CHR '','') (py_strip l))"

definition field :: "nat \<Rightarrow> string \<Rightarrow> string" where
  "field i l = (if i < length (line_fields l) then line_fields l ! i else '''')"

text \<open>
  A malformed link is a link that is there and that its parser rejects. A line is
  well-formed when it has at most three fields and neither link is malformed. (A
  well-formed line need not be ASCII: that is a condition of its own, \<open>ascii_bytes\<close>.)
\<close>

definition malformed_model_link :: "(string \<Rightarrow> error option) \<Rightarrow> string \<Rightarrow> bool" where
  "malformed_model_link chk l =
     (field 2 l \<noteq> [] \<and> isl (parse_huggingface_url chk (field 2 l)))"

definition malformed_dataset_link :: "(string \<Rightarrow> error option) \<Rightarrow> string \<Rightarrow> bool" where
  "malformed_dataset_link chk l =
     (field 1 l \<noteq> [] \<and> isl (parse_dataset_url chk (field 1 l)))"

definition well_formed_line :: "(string \<Rightarrow> error option) \<Rightarrow> string \<Rightarrow> bool" where
  "well_formed_line chk l =
     (length (line_fields l) \<le> 3 \<and> \<not> malformed_model_link chk l
      \<and> \<not> malformed_dataset_link chk l)"

text \<open>
  The group the specification asks for on a well-formed line: a component is absent
  when its field is empty, and otherwise holds the link with what its parser returns.
\<close>

definition spec_group :: "(string \<Rightarrow> error option) \<Rightarrow> string \<Rightarrow> ProjectGroup" where
  "spec_group chk l =
     \<lparr>code = (if field 0 l = [] then None
              else Some \<lparr>Code.link = field 0 l, Code.namespace = ''''\<rparr>),
      dataset = (if field 1 l = [] then None
                 else (case parse_dataset_url chk (field 1 l) of
                         Inl e \<Rightarrow> None
                       | Inr data_repo \<Rightarrow>
                           Some \<lparr>Dataset.link = field 1 l, Dataset.namespace = '''',
                                 Dataset.repo = data_repo, Dataset.rev' = ''''\<rparr>)),
      model = (if field 2 l = [] then None
               else (case parse_huggingface_url chk (field 2 l) of
                       Inl e \<Rightarrow> None
                     | Inr (ns, rp, rv) \<Rightarrow>
                         Some \<lparr>Model.link = field 2 l, Model.namespace = ns,
                               Model.repo = rp, Model.rev' = rv\<rparr>))\<rparr>"

text \<open>
  The revision rule in the words of the specification: the fourth segment is the tag
  \<open>tree\<close> and a fifth segment exists.
\<close>

definition spec_revision :: "string list \<Rightarrow> string" where
  "spec_revision parts =
     (if length parts \<ge> 5 \<and> parts ! 3 = ''tree'' then parts ! 4 else ''main'')"

section \<open>\<open>src/metrics/calculate_license_score.py\<close>\<close>

text \<open>
  The log sink is any object with a method \<open>put\<close>. It is modelled by its state \<open>'q\<close> and
  the function \<open>put\<close>, which returns the exception the call raises (if any) and the state
  it leaves. The messages are kept as data; the process id that prefixes each of them
  is left out.
\<close>

datatype log_msg =
    InfoStarting "string option"
  | InfoLicenseFound "string option"
  | InfoNoLicense
  | InfoTier string
  | CriticalError "string option" error
  | InfoFinished real real

type_synonym 'q log_put = "'q \<Rightarrow> log_msg \<Rightarrow> error option \<times> 'q"

text \<open>\<open>if verbosity >= 1: log_queue.put(...)\<close>.\<close>

definition log_info :: "'q log_put \<Rightarrow> int \<Rightarrow> log_msg \<Rightarrow> 'q \<Rightarrow> error option \<times> 'q" where
  "log_info put verbosity m q = (if verbosity \<ge> 1 then put q m else (None, q))"

text \<open>\<open>any(license in license_text for license in names)\<close>.\<close>

definition any_in :: "string list \<Rightarrow> string \<Rightarrow> bool" where
  "any_in names license_text = list_ex (\<lambda>license. py_in license license_text) names"

definition permissive_licenses :: "string list" where
  "permissive_licenses = [''mit'', ''apache-2.0'', ''apache2'', ''apache license 2.0'',
                          ''bsd-2-clause'', ''bsd-3-clause'', ''bsd-2'', ''bsd-3'', ''bsd'',
                          ''unlicense'', ''cc0'', ''creative commons zero'']"

text \<open>
  \<open>str(license_info).lower().strip() if license_info else "unknown"\<close>; \<open>None\<close> and the
  empty string are false.
\<close>

definition license_text_of :: "string option \<Rightarrow> string" where
  "license_text_of license_info =
     (case license_info of
        None \<Rightarrow> ''unknown''
      | Some s \<Rightarrow> if s \<noteq> [] then py_strip (py_lower s) else ''unknown'')"

text \<open>The chain of tiers: the score and the text of the message logged with it.\<close>

definition license_tier :: "string \<Rightarrow> real \<times> string" where
  "license_tier license_text =
     (if any_in permissive_licenses license_text
      then (1.0, ''Highly permissive license -> Score = 1.0'')
      else if py_in ''lgpl-2.1'' license_text \<or> py_in ''lgplv2.1'' license_text
      then (0.9, ''LGPL-2.1 license -> Score = 0.9'')
      else if any_in [''mpl-2.0'', ''mpl2'', ''mozilla public license 2.0'',
                      ''eclipse-2.0'', ''eclipse public license 2.0''] license_text
      then (0.8, ''Permissive with conditions -> Score = 0.8'')
      else if any_in [''lgpl'', ''lgpl-'', ''lesser general public license''] license_text
      then (0.7, ''LGPL family license -> Score = 0.7'')
      else if py_in ''openrail'' license_text
      then (0.7, ''OpenRAIL license -> Score = 0.7'')
      else if any_in [''llama2'', ''gemma'', ''bigscience'', ''bigcode''] license_text
      then (0.6, ''Modern ML license -> Score = 0.6'')
      else if any_in [''lgpl-3.0'', ''lgplv3'', ''epl-1.0'', ''epl-2.0''] license_text
      then (0.6, ''Weak copyleft license -> Score = 0.6'')
      else if any_in [''gpl-2.0'', ''gplv2''] license_text
      then (0.5, ''GPL-2.0 license -> Score = 0.5'')
      else if any_in [''gpl-3.0'', ''gplv3'', ''gpl'', ''agpl'', ''affero gpl''] license_text
      then (0.3, ''Strong copyleft license -> Score = 0.3'')
      else if any_in [''non-commercial'', ''noncommercial'', ''research-only'',
                      ''research use'', ''no-derivatives'', ''cc-by-nc'',
                      ''educational'', ''academic'', ''non-profit''] license_text
      then (0.2, ''Restricted license -> Score = 0.2'')
      else if any_in [''proprietary'', ''closed source'', ''commercial'',
                      ''all rights reserved''] license_text
      then (0.0, ''Proprietary license -> Score = 0.0'')
      else (0.5, ''Unknown license -> Score = 0.5''))"

text \<open>
  The body of the \<open>try\<close>: the message about the license info, the tier, the message of
  the tier. It returns the score, or the exception a \<open>put\<close> raised, with the sink's state.
\<close>

definition try_block ::
  "'q log_put \<Rightarrow> string option \<Rightarrow> int \<Rightarrow> 'q \<Rightarrow> (error + real) \<times> 'q"
where
  "try_block put license_info verbosity q =
     (let found = (case license_info of None \<Rightarrow> False | Some s \<Rightarrow> s \<noteq> []);
          (r1, q1) = log_info put verbosity
                       (if found then InfoLicenseFound license_info else InfoNoLicense) q
      in case r1 of
           Some e \<Rightarrow> (Inl e, q1)
         | None \<Rightarrow>
             (let (score, msg) = license_tier (license_text_of license_info);
                  (r2, q2) = log_info put verbosity (InfoTier msg) q1
              in case r2 of
                   Some e \<Rightarrow> (Inl e, q2)
                 | None \<Rightarrow> (Inr score, q2)))"

text \<open>
  \<open>try: ... except Exception as e:\<close> an \<open>Exception\<close> raised in the body is logged (at
  verbosity 1 and above) and the score is 0.5; any other exception, and an exception
  raised by the \<open>put\<close> of the handler, leaves the function.
\<close>

definition try_except ::
  "'q log_put \<Rightarrow> string option \<Rightarrow> int \<Rightarrow> 'q \<Rightarrow> (error + real) \<times> 'q"
where
  "try_except put license_info verbosity q =
     (case try_block put license_info verbosity q of
        (Inr score, q2) \<Rightarrow> (Inr score, q2)
      | (Inl e, q2) \<Rightarrow>
          if is_Exception e
          then (case log_info put verbosity (CriticalError license_info e) q2 of
                  (Some e', q3) \<Rightarrow> (Inl e', q3)
                | (None, q3) \<Rightarrow> (Inr 0.5, q3))
          else (Inl e, q2))"

text \<open>
  The function. \<open>start_time\<close> and \<open>end_time\<close> are the two readings of \<open>time.time()\<close>
  (floats, read here as real numbers). The result is the pair \<open>(score, time_taken)\<close> or
  the exception that leaves the function, with the state of the sink.
\<close>

definition calculate_license_score ::
  "'q log_put \<Rightarrow> real \<Rightarrow> real \<Rightarrow> string option \<Rightarrow> int \<Rightarrow> 'q \<Rightarrow> (error + real \<times> real) \<times> 'q"
where
  "calculate_license_score put start_time end_time license_info verbosity log_queue =
     (case log_info put verbosity (InfoStarting license_info) log_queue of
        (Some e, q1) \<Rightarrow> (Inl e, q1)
      | (None, q1) \<Rightarrow>
          (case try_except put license_info verbosity q1 of
             (Inl e, q4) \<Rightarrow> (Inl e, q4)
           | (Inr score, q4) \<Rightarrow>
               (let time_taken = end_time - start_time in
                case log_info put verbosity (InfoFinished score time_taken) q4 of
                  (Some e, q5) \<Rightarrow> (Inl e, q5)
                | (None, q5) \<Rightarrow> (Inr (score, time_taken), q5))))"

text \<open>
  Three sinks: a queue that takes every message; a \<open>str\<close> in the place of the queue (as
  \<open>run.py\<close> stores \<open>log_file_path\<close> under the key \<open>log_queue\<close>), which has no \<open>put\<close>, so
  every call raises \<open>AttributeError\<close>; and a queue that refuses the messages about the
  license info and takes the others.
\<close>

definition queue_put :: "log_msg list log_put" where
  "queue_put q m = (None, q @ [m])"

definition str_put :: "string log_put" where
  "str_put q m = (Some (OtherException ''AttributeError''), q)"

fun picky_put :: "log_msg list log_put" where
  "picky_put q (InfoLicenseFound i) = (Some (OtherException ''RuntimeError''), q)"
| "picky_put q InfoNoLicense = (Some (OtherException ''RuntimeError''), q)"
| "picky_put q m = (None, q @ [m])"

section \<open>The concurrent evaluator\<close>

text \<open>
  Modelled from the spec: \<open>metric_caller.run_concurrently_from_file\<close>, which \<open>run.py\<close>
  calls at line 159, is not among the source files. The model follows section 4.4 of the
  specification. A metric, called on the input record, returns a pair (score, latency),
  returns something else, or raises. The registry maps the names of the metrics to
  their implementations. The task list is resolved into the selected names (each once,
  in the order of the list); a name the registry does not know is a configuration
  error. The selected metrics run as independent units; the order in which they
  complete is the scheduler's: at each step the next entry of \<open>sched\<close> picks one of the
  pending units. A metric that fails contributes the default result \<open>fallback\<close> gives
  for its name. The rule that combines the latencies is the parameter \<open>combine\<close>.
\<close>

datatype outcome = Returned real real | Malformed | Raised error

type_synonym MetricResult = "real \<times> real"

type_synonym 'r registry = "string \<rightharpoonup> ('r \<Rightarrow> outcome)"

definition resolve_task_list :: "'r registry \<Rightarrow> string list \<Rightarrow> error + string list" where
  "resolve_task_list reg names =
     (if list_all (\<lambda>n. reg n \<noteq> None) names then Inr (remdups names)
      else Inl (ValueError ''unknown metric in the task list''))"

definition run_metric ::
  "'r registry \<Rightarrow> (string \<Rightarrow> MetricResult) \<Rightarrow> 'r \<Rightarrow> string \<Rightarrow> MetricResult"
where
  "run_metric reg fallback input_record name =
     (case reg name of
        None \<Rightarrow> fallback name
      | Some evaluate \<Rightarrow>
          (case evaluate input_record of
             Returned score latency \<Rightarrow> (score, latency)
           | Malformed \<Rightarrow> fallback name
           | Raised e \<Rightarrow> fallback name))"

text \<open>The unit that completes next: chosen by the head of the schedule among the pending ones.\<close>

definition next_unit :: "nat list \<Rightarrow> string list \<Rightarrow> nat" where
  "next_unit sched pending = (case sched of [] \<Rightarrow> 0 | c # cs \<Rightarrow> c mod length pending)"

function collect_results ::
  "'r registry \<Rightarrow> (string \<Rightarrow> MetricResult) \<Rightarrow> 'r \<Rightarrow> nat list \<Rightarrow> string list
     \<Rightarrow> (string \<times> MetricResult) list"
where
  "collect_results reg fallback input_record sched pending =
     (if pending = [] then []
      else (let i = next_unit sched pending; name = pending ! i
            in (name, run_metric reg fallback input_record name)
               # collect_results reg fallback input_record (tl sched)
                   (take i pending @ drop (Suc i) pending)))"
  by pat_completeness auto
termination
proof (relation "measure (\<lambda>(reg, fallback, input_record, sched, pending). length pending)",
       goal_cases)
  case 1
  show ?case by simp
next
  case (2 reg fallback input_record sched pending i name)
  then have "i < length pending"
    by (cases sched) (simp_all add: next_unit_def)
  then show ?case by simp
qed

declare collect_results.simps [simp del]

text \<open>
  The report is the list of (name, result) entries in the order of completion; read as a
  mapping it is \<open>map_of\<close> of that list.
\<close>

definition run_concurrently ::
  "'r registry \<Rightarrow> (string \<Rightarrow> MetricResult) \<Rightarrow> (real list \<Rightarrow> real) \<Rightarrow> nat list
     \<Rightarrow> string list \<Rightarrow> 'r \<Rightarrow> error + ((string \<times> MetricResult) list \<times> real)"
where
  "run_concurrently reg fallback combine sched task_list input_record =
     (case resolve_task_list reg task_list of
        Inl e \<Rightarrow> Inl e
      | Inr selected \<Rightarrow>
          (let report = collect_results reg fallback input_record sched selected
           in Inr (report, combine (map (\<lambda>(name, score, latency). latency) report))))"

text \<open>
  A registry of three metrics for the examples: one returns a result, one raises, one
  returns something that is no (score, latency) pair.
\<close>

definition demo_registry :: "unit registry" where
  "demo_registry = [''license'' \<mapsto> (\<lambda>r. Returned 1 0),
                    ''size'' \<mapsto> (\<lambda>r. Raised (ValueError ''boom'')),
                    ''ramp_up'' \<mapsto> (\<lambda>r. Malformed)]"

text \<open>
  A manifest for the examples: the line of the specification, a blank line, a line with
  a code link only, and a line with all three links. And a line that is well-formed
  but not ASCII: the byte 0xE9 stands in its code link.
\<close>

definition latin1_line :: string where
  "latin1_line = ''https://github.com/a/'' @ [CHR 0xE9] @ '',,''"


definition demo_manifest :: "string list" where
  "demo_manifest =
     ['',,https://huggingface.co/openai-community/gpt2'' @ [CHR 0x0A],
      ''  '' @ [CHR 0x0A],
      ''https://github.com/a/b'' @ [CHR 0x0A],
      ''https://github.com/a/b, https://huggingface.co/datasets/stanfordnlp/imdb, https://huggingface.co/x/y/tree/dev'']"

section \<open>Properties of the URL classifier\<close>

lemma urlparse_fields:
  assumes "urlparse chk url = Inr parsed"
  shows "path parsed = url_path url" and "netloc parsed = url_netloc url"
  using assms
  by (auto simp: urlparse_def urlsplit_def url_path_def url_netloc_def Let_def
           split: prod.splits sum.splits option.splits if_splits)

lemma parse_huggingface_url_cases:
  "parse_huggingface_url chk url =
     (case urlparse chk url of
        Inl e \<Rightarrow> Inl e
      | Inr parsed \<Rightarrow>
          (let parts = path_parts (url_path url) in
           if length parts < 2 then Inl (ValueError (''Invalid Hugging Face URL: '' @ url))
           else Inr (parts ! 0, parts ! 1,
                     if length parts \<ge> 4 \<and> parts ! 2 = ''tree'' then parts ! 3 else ''main'')))"
  by (auto simp: parse_huggingface_url_def Let_def urlparse_fields split: sum.splits)

lemma parse_dataset_url_cases:
  "parse_dataset_url chk url =
     (case urlparse chk url of
        Inl e \<Rightarrow> Inl e
      | Inr parsed \<Rightarrow>
          if py_in ''huggingface.co'' (url_netloc url)
          then (let parts = path_parts (url_path url) in
                if length parts < 2 \<or> parts ! 0 \<noteq> ''datasets''
                then Inl (ValueError (''Invalid Hugging Face dataset URL: '' @ url))
                else Inr (last parts))
          else if py_in ''github.com'' (url_netloc url) then Inr url
          else Inl (ValueError (''Unsupported dataset URL: '' @ url)))"
  by (simp add: parse_dataset_url_def urlparse_fields split: sum.splits)

text \<open>
  C3, as the code has it: for every link that \<open>parse_huggingface_url\<close> accepts, the
  namespace and the repository are the first two segments of the path, and the revision
  is the fourth segment when the third segment is the tag \<open>tree\<close> and a fourth segment
  exists; for every other accepted link the revision is \<open>main\<close>.
\<close>

theorem parse_huggingface_url_revision:
  assumes "parse_huggingface_url chk url = Inr (ns, rp, rv)"
  shows "length (path_parts (url_path url)) \<ge> 2
         \<and> ns = path_parts (url_path url) ! 0
         \<and> rp = path_parts (url_path url) ! 1
         \<and> rv = (if length (path_parts (url_path url)) \<ge> 4
                     \<and> path_parts (url_path url) ! 2 = ''tree''
                  then path_parts (url_path url) ! 3 else ''main'')"
  using assms
  by (auto simp: parse_huggingface_url_cases Let_def split: sum.splits if_splits)

theorem parse_huggingface_url_revision_witness:
  "parse_huggingface_url no_bracket_check ''https://host/ns/repo/tree/v2''
     = Inr (''ns'', ''repo'', ''v2'')
   \<and> path_parts (url_path ''https://host/ns/repo/tree/v2'') ! 2 = ''tree''
   \<and> path_parts (url_path ''https://host/ns/repo/tree/v2'') ! 3 = ''v2''"
proof -
  have h: "parse_huggingface_url no_bracket_check ''https://host/ns/repo/tree/v2''
             = Inr (''ns'', ''repo'', ''v2'')"
    by code_simp
  have p: "path_parts (url_path ''https://host/ns/repo/tree/v2'')
             = [''ns'', ''repo'', ''tree'', ''v2'']"
    by code_simp
  from parse_huggingface_url_revision [OF h] h p show ?thesis by simp
qed

text \<open>
  C3, as the claim words it (the fourth segment is \<open>tree\<close>, the fifth is the revision),
  fails on the link of the specification's own example: its path has the four segments
  \<open>ns\<close>, \<open>repo\<close>, \<open>tree\<close>, \<open>v2\<close>, so the rule in the claim's words gives \<open>main\<close>, and the
  code returns \<open>v2\<close>.
\<close>

theorem parse_huggingface_url_revision_counterexample:
  "parse_huggingface_url no_bracket_check ''https://host/ns/repo/tree/v2''
     = Inr (''ns'', ''repo'', ''v2'')
   \<and> path_parts (url_path ''https://host/ns/repo/tree/v2'') = [''ns'', ''repo'', ''tree'', ''v2'']
   \<and> spec_revision (path_parts (url_path ''https://host/ns/repo/tree/v2'')) = ''main''"
  by code_simp

text \<open>
  C4: \<open>parse_huggingface_url\<close> on \<open>https://host/ns/repo\<close> returns
  \<open>(ns, repo, main)\<close>, and on \<open>https://host/ns/repo/tree/v2\<close> it returns \<open>(ns, repo, v2)\<close>,
  whatever the library's check of bracketed hosts is.
\<close>

theorem parse_huggingface_url_examples:
  "parse_huggingface_url chk ''https://host/ns/repo'' = Inr (''ns'', ''repo'', ''main'')
   \<and> parse_huggingface_url chk ''https://host/ns/repo/tree/v2'' = Inr (''ns'', ''repo'', ''v2'')"
  by code_simp



text \<open>
  C6, as the code has it: for every link that \<open>urlparse\<close> accepts, (1) when the netloc
  contains \<open>huggingface.co\<close> and the path has two segments or more, the first of them
  \<open>datasets\<close>, the result is the last segment; (2) when the netloc contains
  \<open>huggingface.co\<close> and the path is not of that form, the link is rejected; (3) when the
  netloc does not contain \<open>huggingface.co\<close> and contains \<open>github.com\<close>, the link is returned
  as it is; (4) when the netloc contains neither, the link is rejected.
\<close>

theorem parse_dataset_url_branches:
  assumes "\<not> isl (urlparse chk url)"
  shows "(py_in ''huggingface.co'' (url_netloc url)
            \<and> length (path_parts (url_path url)) \<ge> 2
            \<and> path_parts (url_path url) ! 0 = ''datasets''
          \<longrightarrow> parse_dataset_url chk url = Inr (last (path_parts (url_path url))))
       \<and> (py_in ''huggingface.co'' (url_netloc url)
            \<and> (length (path_parts (url_path url)) < 2
                 \<or> path_parts (url_path url) ! 0 \<noteq> ''datasets'')
          \<longrightarrow> parse_dataset_url chk url
                = Inl (ValueError (''Invalid Hugging Face dataset URL: '' @ url)))
       \<and> (\<not> py_in ''huggingface.co'' (url_netloc url) \<and> py_in ''github.com'' (url_netloc url)
          \<longrightarrow> parse_dataset_url chk url = Inr url)
       \<and> (\<not> py_in ''huggingface.co'' (url_netloc url)
            \<and> \<not> py_in ''github.com'' (url_netloc url)
          \<longrightarrow> parse_dataset_url chk url
                = Inl (ValueError (''Unsupported dataset URL: '' @ url)))"
  using assms by (auto simp: parse_dataset_url_cases Let_def split: sum.splits)

theorem parse_dataset_url_branches_witness:
  "parse_dataset_url no_bracket_check ''https://huggingface.co/datasets/stanfordnlp/imdb''
     = Inr ''imdb''
   \<and> parse_dataset_url no_bracket_check ''https://github.com/zalandoresearch/fashion-mnist''
       = Inr ''https://github.com/zalandoresearch/fashion-mnist''
   \<and> parse_dataset_url no_bracket_check ''https://example.org/data/set''
       = Inl (ValueError ''Unsupported dataset URL: https://example.org/data/set'')
   \<and> parse_dataset_url no_bracket_check ''https://huggingface.co/openai-community/gpt2''
       = Inl (ValueError
               ''Invalid Hugging Face dataset URL: https://huggingface.co/openai-community/gpt2'')"
proof -
  have a: "\<not> isl (urlparse no_bracket_check ''https://huggingface.co/datasets/stanfordnlp/imdb'')"
    by code_simp
  have a1: "py_in ''huggingface.co''
              (url_netloc ''https://huggingface.co/datasets/stanfordnlp/imdb'')"
    by code_simp
  have a2: "path_parts (url_path ''https://huggingface.co/datasets/stanfordnlp/imdb'')
              = [''datasets'', ''stanfordnlp'', ''imdb'']"
    by code_simp
  have b: "\<not> isl (urlparse no_bracket_check ''https://github.com/zalandoresearch/fashion-mnist'')"
    by code_simp
  have b1: "\<not> py_in ''huggingface.co''
                (url_netloc ''https://github.com/zalandoresearch/fashion-mnist'')"
    by code_simp
  have b2: "py_in ''github.com'' (url_netloc ''https://github.com/zalandoresearch/fashion-mnist'')"
    by code_simp
  have c: "\<not> isl (urlparse no_bracket_check ''https://example.org/data/set'')"
    by code_simp
  have c1: "\<not> py_in ''huggingface.co'' (url_netloc ''https://example.org/data/set'')"
    by code_simp
  have c2: "\<not> py_in ''github.com'' (url_netloc ''https://example.org/data/set'')"
    by code_simp
  have d: "\<not> isl (urlparse no_bracket_check ''https://huggingface.co/openai-community/gpt2'')"
    by code_simp
  have d1: "py_in ''huggingface.co'' (url_netloc ''https://huggingface.co/openai-community/gpt2'')"
    by code_simp
  have d2: "path_parts (url_path ''https://huggingface.co/openai-community/gpt2'')
              = [''openai-community'', ''gpt2'']"
    by code_simp
  show ?thesis
    using parse_dataset_url_branches [OF a] parse_dataset_url_branches [OF b]
      parse_dataset_url_branches [OF c] parse_dataset_url_branches [OF d]
      a1 a2 b1 b2 c1 c2 d1 d2
    by simp
qed

text \<open>
  C6, as the claim words it, fails on two links. The first is under \<open>huggingface.co\<close>
  and its namespace segment is \<open>datasets\<close>, but no segment follows: the code rejects it
  and does not return the trailing segment. The second is under \<open>github.com\<close>, but its
  netloc also contains \<open>huggingface.co\<close>, which the code tests first: it is rejected and
  not returned as it is.
\<close>

theorem parse_dataset_url_branches_counterexample:
  "py_in ''huggingface.co'' (url_netloc ''https://huggingface.co/datasets'')
   \<and> path_parts (url_path ''https://huggingface.co/datasets'') = [''datasets'']
   \<and> parse_dataset_url no_bracket_check ''https://huggingface.co/datasets''
       = Inl (ValueError ''Invalid Hugging Face dataset URL: https://huggingface.co/datasets'')
   \<and> py_in ''github.com'' (url_netloc ''https://huggingface.co.github.com/o/r'')
   \<and> parse_dataset_url no_bracket_check ''https://huggingface.co.github.com/o/r''
       = Inl (ValueError
               ''Invalid Hugging Face dataset URL: https://huggingface.co.github.com/o/r'')"
  by code_simp

section \<open>Properties of the manifest parser\<close>

subsection \<open>Padding and unpacking\<close>

lemma pad_parts_eq: "pad_parts fs = fs @ replicate (3 - length fs) ''''"
proof (induction fs rule: pad_parts.induct)
  case (1 parts)
  show ?case
  proof (cases "length parts < 3")
    case True
    then have "pad_parts parts = pad_parts (parts @ [''''])"
      by (subst pad_parts.simps) simp
    also have "\<dots> = (parts @ ['''']) @ replicate (3 - length (parts @ [''''])) ''''"
      using True by (rule "1.IH")
    also have "\<dots> = parts @ replicate (3 - length parts) ''''"
      using True by (simp add: replicate_Suc [symmetric] Suc_diff_Suc del: replicate_Suc)
    finally show ?thesis .
  next
    case False
    then show ?thesis by (subst pad_parts.simps) simp
  qed
qed

lemma short_list_cases:
  assumes "length fs \<le> 3"
  shows "fs = [] \<or> (\<exists>a. fs = [a]) \<or> (\<exists>a b. fs = [a, b]) \<or> (\<exists>a b c. fs = [a, b, c])"
proof (cases fs)
  case Nil
  then show ?thesis by simp
next
  case c1: (Cons a fs1)
  show ?thesis
  proof (cases fs1)
    case Nil
    with c1 show ?thesis by simp
  next
    case c2: (Cons b fs2)
    show ?thesis
    proof (cases fs2)
      case Nil
      with c1 c2 show ?thesis by simp
    next
      case c3: (Cons c fs3)
      with c1 c2 assms have "fs3 = []" by simp
      with c1 c2 c3 show ?thesis by simp
    qed
  qed
qed

lemma long_list_cases:
  assumes "length fs > 3"
  shows "\<exists>a b c d r. fs = a # b # c # d # r"
proof -
  from assms obtain a fs1 where 1: "fs = a # fs1" by (cases fs) auto
  with assms obtain b fs2 where 2: "fs1 = b # fs2" by (cases fs1) auto
  with 1 assms obtain c fs3 where 3: "fs2 = c # fs3" by (cases fs2) auto
  with 1 2 assms obtain d fs4 where 4: "fs3 = d # fs4" by (cases fs3) auto
  from 1 2 3 4 show ?thesis by blast
qed

lemma pad_parts_fields:
  assumes "length (line_fields l) \<le> 3"
  shows "pad_parts (line_fields l) = [field 0 l, field 1 l, field 2 l]"
  using short_list_cases [OF assms]
  by (auto simp: pad_parts_eq field_def numeral_3_eq_3)

lemma parse_line_too_many:
  assumes "length (line_fields l) > 3"
  shows "parse_line chk (py_strip l)
         = Inl (ValueError ''too many values to unpack (expected 3)'')"
proof -
  from long_list_cases [OF assms]
  obtain a b c d r where "line_fields l = a # b # c # d # r" by blast
  then show ?thesis
    unfolding parse_line_def line_fields_def [symmetric]
    by (simp add: pad_parts_eq)
qed

subsection \<open>One line\<close>

lemma parse_line_fields:
  assumes "length (line_fields l) \<le> 3"
  shows "parse_line chk (py_strip l) =
          bind_err (if field 2 l \<noteq> [] then parse_huggingface_url chk (field 2 l)
                    else Inr ('''', '''', ''main''))
            (\<lambda>first_parse.
          bind_err (if field 1 l \<noteq> []
                    then bind_err (parse_dataset_url chk (field 1 l))
                           (\<lambda>data_repo. Inr (Some \<lparr>Dataset.link = field 1 l,
                                Dataset.namespace = '''', Dataset.repo = data_repo,
                                Dataset.rev' = ''''\<rparr>))
                    else Inr None)
            (\<lambda>dataset_obj.
          bind_err (if field 2 l \<noteq> []
                    then bind_err (parse_huggingface_url chk (field 2 l))
                           (\<lambda>(ns, rp, rv). Inr (Some \<lparr>Model.link = field 2 l,
                                Model.namespace = ns, Model.repo = rp, Model.rev' = rv\<rparr>))
                    else Inr None)
            (\<lambda>model_obj.
          Inr \<lparr>code = (if field 0 l \<noteq> []
                          then Some \<lparr>Code.link = field 0 l, Code.namespace = ''''\<rparr>
                          else None), dataset = dataset_obj, model = model_obj\<rparr>)))"
  unfolding parse_line_def line_fields_def [symmetric] pad_parts_fields [OF assms]
  by (simp add: Let_def)

lemma parse_line_well_formed:
  assumes "well_formed_line chk l"
  shows "parse_line chk (py_strip l) = Inr (spec_group chk l)"
proof -
  from assms have len: "length (line_fields l) \<le> 3" by (simp add: well_formed_line_def)
  from assms have m: "field 2 l = [] \<or> (\<exists>r. parse_huggingface_url chk (field 2 l) = Inr r)"
    by (cases "parse_huggingface_url chk (field 2 l)")
       (auto simp: well_formed_line_def malformed_model_link_def)
  from assms have d: "field 1 l = [] \<or> (\<exists>r. parse_dataset_url chk (field 1 l) = Inr r)"
    by (cases "parse_dataset_url chk (field 1 l)")
       (auto simp: well_formed_line_def malformed_dataset_link_def)
  from m d show ?thesis
    unfolding parse_line_fields [OF len]
    by (auto simp: bind_err_def spec_group_def)
qed

lemma parse_line_malformed:
  assumes "malformed_model_link chk l \<or> malformed_dataset_link chk l"
  shows "isl (parse_line chk (py_strip l))"
proof (cases "length (line_fields l) \<le> 3")
  case True
  from assms show ?thesis
  proof
    assume "malformed_model_link chk l"
    then obtain e where "field 2 l \<noteq> []" "parse_huggingface_url chk (field 2 l) = Inl e"
      by (auto simp: malformed_model_link_def isl_def)
    then show ?thesis
      unfolding parse_line_fields [OF True] by (simp add: bind_err_def)
  next
    assume "malformed_dataset_link chk l"
    then obtain e where "field 1 l \<noteq> []" "parse_dataset_url chk (field 1 l) = Inl e"
      by (auto simp: malformed_dataset_link_def isl_def)
    then show ?thesis
      unfolding parse_line_fields [OF True]
      by (cases "parse_huggingface_url chk (field 2 l)") (simp_all add: bind_err_def)
  qed
next
  case False
  then show ?thesis by (simp add: parse_line_too_many)
qed

subsection \<open>The loop\<close>

lemma ascii_bytes_ahead:
  assumes "ascii_bytes l" and "\<forall>x \<in> set ls. ascii_bytes x"
  shows "ascii_bytes (l @ take n (concat ls))"
proof -
  have "\<forall>c \<in> set (concat ls). (of_char c :: nat) < 128"
    using assms(2) by (auto simp: ascii_bytes_def list_all_iff)
  moreover have "set (take n (concat ls)) \<subseteq> set (concat ls)"
    by (rule set_take_subset)
  ultimately have "\<forall>c \<in> set (take n (concat ls)). (of_char c :: nat) < 128"
    by blast
  with assms(1) show ?thesis
    by (auto simp: ascii_bytes_def list_all_iff)
qed

lemma parse_lines_well_formed:
  assumes "\<forall>l \<in> set ls. ascii_bytes l \<and> (blank_line l \<or> well_formed_line chk l)"
  shows "parse_lines chk ahead acc ls
         = Inr (acc @ map (spec_group chk) (filter (\<lambda>l. \<not> blank_line l) ls))"
  using assms
proof (induction ls arbitrary: acc ahead)
  case Nil
  then show ?case by simp
next
  case (Cons l ls)
  from Cons.prems have a: "ascii_bytes (l @ take (bytes_ahead ahead) (concat ls))"
    by (intro ascii_bytes_ahead) simp_all
  from Cons.prems have rest:
    "\<forall>x \<in> set ls. ascii_bytes x \<and> (blank_line x \<or> well_formed_line chk x)"
    by simp
  show ?case
  proof (cases "blank_line l")
    case True
    with a Cons.IH [OF rest] show ?thesis by (simp add: blank_line_def)
  next
    case False
    with Cons.prems have "well_formed_line chk l" by simp
    then have "parse_line chk (py_strip l) = Inr (spec_group chk l)"
      by (rule parse_line_well_formed)
    with False a Cons.IH [OF rest] show ?thesis by (simp add: blank_line_def)
  qed
qed

lemma parse_lines_error:
  assumes "l \<in> set ls" and "\<not> blank_line l" and "isl (parse_line chk (py_strip l))"
  shows "isl (parse_lines chk ahead acc ls)"
  using assms
proof (induction ls arbitrary: acc ahead)
  case Nil
  then show ?case by simp
next
  case (Cons x xs)
  show ?case
  proof (cases "x = l")
    case True
    with Cons.prems show ?thesis by (auto simp: blank_line_def isl_def)
  next
    case False
    with Cons.prems have "l \<in> set xs" by simp
    then have "\<And>acc ahead. isl (parse_lines chk ahead acc xs)"
      using Cons.IH Cons.prems(2,3) by blast
    then show ?thesis by (simp add: Let_def split: sum.splits)
  qed
qed

subsection \<open>Counting the fields of a line\<close>

lemma py_split_nonempty: "py_split c s \<noteq> []"
  by (induction s) (auto split: list.splits)

lemma length_py_split: "length (py_split c s) = Suc (count_list s c)"
  by (induction s) (auto split: list.splits simp: py_split_nonempty)

lemma count_list_dropWhile:
  "\<not> P c \<Longrightarrow> count_list (dropWhile P s) c = count_list s c"
  by (induction s) auto

lemma count_list_rev: "count_list (List.rev s) c = count_list s c"
  by (induction s) auto

lemma count_list_py_strip:
  "\<not> py_isspace c \<Longrightarrow> count_list (py_strip s) c = count_list s c"
  by (simp add: py_strip_def count_list_rev count_list_dropWhile)

lemma comma_not_space: "\<not> py_isspace (CHR '','')"
  by (simp add: py_isspace_def)

lemma length_line_fields: "length (line_fields l) = Suc (count_list l (CHR '',''))"
  by (simp add: line_fields_def length_py_split count_list_py_strip comma_not_space)

lemma commas_not_blank:
  assumes "count_list l (CHR '','') > 0"
  shows "\<not> blank_line l"
proof
  assume b: "blank_line l"
  have "count_list (py_strip l) (CHR '','') = count_list l (CHR '','')"
    by (rule count_list_py_strip [OF comma_not_space])
  with assms b show False by (simp add: blank_line_def)
qed

subsection \<open>The claims about \<open>parse_project_file\<close>\<close>

text \<open>
  C7, as the code has it: when every line of the manifest is ASCII and is blank or
  well-formed, \<open>parse_project_file\<close> returns one group for each line that is not blank,
  in the order of the lines, whatever the sizes of the reader's chunks; the group of a
  line has no component where the field is empty or missing (a line with fewer than
  three fields is well-formed) and otherwise the link with what its parser returns. The
  line \<open>,,https://huggingface.co/openai-community/gpt2\<close> gives one group with no code,
  no dataset, and the model \<open>openai-community\<close>, \<open>gpt2\<close>, \<open>main\<close>.
\<close>

theorem parse_project_file_well_formed:
  "(list_all (\<lambda>l. ascii_bytes l \<and> (blank_line l \<or> well_formed_line chk l)) ls
      \<longrightarrow> parse_project_file chk ahead ls
            = Inr (map (spec_group chk) (filter (\<lambda>l. \<not> blank_line l) ls)))
   \<and> parse_project_file chk ahead ['',,https://huggingface.co/openai-community/gpt2'']
       = Inr [\<lparr>code = None, dataset = None,
               model = Some \<lparr>Model.link = ''https://huggingface.co/openai-community/gpt2'',
                             Model.namespace = ''openai-community'', Model.repo = ''gpt2'',
                             Model.rev' = ''main''\<rparr>\<rparr>]"
proof
  have general: "parse_project_file chk ahead xs
            = Inr (map (spec_group chk) (filter (\<lambda>l. \<not> blank_line l) xs))"
    if "list_all (\<lambda>l. ascii_bytes l \<and> (blank_line l \<or> well_formed_line chk l)) xs" for xs
  proof -
    from that have "\<forall>l \<in> set xs. ascii_bytes l \<and> (blank_line l \<or> well_formed_line chk l)"
      by (simp add: list_all_iff)
    from parse_lines_well_formed [OF this, of ahead "[]"]
    show ?thesis by (simp add: parse_project_file_def)
  qed
  then show "list_all (\<lambda>l. ascii_bytes l \<and> (blank_line l \<or> well_formed_line chk l)) ls
      \<longrightarrow> parse_project_file chk ahead ls
            = Inr (map (spec_group chk) (filter (\<lambda>l. \<not> blank_line l) ls))"
    by blast
  have ok: "list_all (\<lambda>l. ascii_bytes l \<and> (blank_line l \<or> well_formed_line chk l))
              ['',,https://huggingface.co/openai-community/gpt2'']"
    by code_simp
  have grp: "map (spec_group chk) (filter (\<lambda>l. \<not> blank_line l)
                ['',,https://huggingface.co/openai-community/gpt2''])
       = [\<lparr>code = None, dataset = None,
               model = Some \<lparr>Model.link = ''https://huggingface.co/openai-community/gpt2'',
                             Model.namespace = ''openai-community'', Model.repo = ''gpt2'',
                             Model.rev' = ''main''\<rparr>\<rparr>]"
    by code_simp
  from general [OF ok] grp
  show "parse_project_file chk ahead ['',,https://huggingface.co/openai-community/gpt2'']
       = Inr [\<lparr>code = None, dataset = None,
               model = Some \<lparr>Model.link = ''https://huggingface.co/openai-community/gpt2'',
                             Model.namespace = ''openai-community'', Model.repo = ''gpt2'',
                             Model.rev' = ''main''\<rparr>\<rparr>]"
    by simp
qed

theorem parse_project_file_well_formed_witness:
  "list_all (\<lambda>l. ascii_bytes l \<and> (blank_line l \<or> well_formed_line no_bracket_check l))
     demo_manifest
   \<and> parse_project_file no_bracket_check [8192, 0, 40] demo_manifest
       = Inr [\<lparr>code = None, dataset = None,
               model = Some \<lparr>Model.link = ''https://huggingface.co/openai-community/gpt2'',
                             Model.namespace = ''openai-community'', Model.repo = ''gpt2'',
                             Model.rev' = ''main''\<rparr>\<rparr>,
              \<lparr>code = Some \<lparr>Code.link = ''https://github.com/a/b'', Code.namespace = ''''\<rparr>,
               dataset = None, model = None\<rparr>,
              \<lparr>code = Some \<lparr>Code.link = ''https://github.com/a/b'', Code.namespace = ''''\<rparr>,
               dataset = Some \<lparr>Dataset.link = ''https://huggingface.co/datasets/stanfordnlp/imdb'',
                               Dataset.namespace = '''', Dataset.repo = ''imdb'',
                               Dataset.rev' = ''''\<rparr>,
               model = Some \<lparr>Model.link = ''https://huggingface.co/x/y/tree/dev'',
                             Model.namespace = ''x'', Model.repo = ''y'',
                             Model.rev' = ''dev''\<rparr>\<rparr>]"
proof -
  have h: "list_all (\<lambda>l. ascii_bytes l \<and> (blank_line l \<or> well_formed_line no_bracket_check l))
             demo_manifest"
    by code_simp
  have g: "map (spec_group no_bracket_check) (filter (\<lambda>l. \<not> blank_line l) demo_manifest)
       = [\<lparr>code = None, dataset = None,
               model = Some \<lparr>Model.link = ''https://huggingface.co/openai-community/gpt2'',
                             Model.namespace = ''openai-community'', Model.repo = ''gpt2'',
                             Model.rev' = ''main''\<rparr>\<rparr>,
              \<lparr>code = Some \<lparr>Code.link = ''https://github.com/a/b'', Code.namespace = ''''\<rparr>,
               dataset = None, model = None\<rparr>,
              \<lparr>code = Some \<lparr>Code.link = ''https://github.com/a/b'', Code.namespace = ''''\<rparr>,
               dataset = Some \<lparr>Dataset.link = ''https://huggingface.co/datasets/stanfordnlp/imdb'',
                               Dataset.namespace = '''', Dataset.repo = ''imdb'',
                               Dataset.rev' = ''''\<rparr>,
               model = Some \<lparr>Model.link = ''https://huggingface.co/x/y/tree/dev'',
                             Model.namespace = ''x'', Model.repo = ''y'',
                             Model.rev' = ''dev''\<rparr>\<rparr>]"
    by code_simp
  from parse_project_file_well_formed [of no_bracket_check demo_manifest "[8192, 0, 40]"] h
  have "parse_project_file no_bracket_check [8192, 0, 40] demo_manifest
          = Inr (map (spec_group no_bracket_check)
                   (filter (\<lambda>l. \<not> blank_line l) demo_manifest))"
    by blast
  with h g show ?thesis by simp
qed

text \<open>
  C7, as the claim words it (every line well-formed, and no condition on the encoding),
  fails on a manifest of one line that is well-formed, with a code link and two empty
  fields, and holds the byte 0xE9: the file is opened as ASCII, the reader raises
  \<open>UnicodeDecodeError\<close>, and no group is returned, whatever the sizes of the chunks.
  Behind well-formed lines the same line makes the whole parse fail: at once when it
  lies in the first chunk, and after the lines before it when it lies in a later one.
\<close>

theorem parse_project_file_well_formed_counterexample:
  "well_formed_line no_bracket_check latin1_line
   \<and> \<not> blank_line latin1_line
   \<and> field 0 latin1_line = ''https://github.com/a/'' @ [CHR 0xE9]
   \<and> parse_project_file no_bracket_check [] [latin1_line] = Inl UnicodeDecodeError
   \<and> parse_project_file no_bracket_check [8192] [latin1_line] = Inl UnicodeDecodeError
   \<and> parse_project_file no_bracket_check [8192] (demo_manifest @ [latin1_line])
       = Inl UnicodeDecodeError
   \<and> parse_project_file no_bracket_check [] (demo_manifest @ [latin1_line])
       = Inl UnicodeDecodeError"
  by code_simp

text \<open>
  C8: when a line of the manifest that is not blank holds a malformed model link or a
  malformed dataset link, \<open>parse_project_file\<close> raises: the result is an exception and
  no list of groups, whatever the other lines are and whatever the sizes of the
  reader's chunks.
\<close>

theorem parse_project_file_malformed_link:
  assumes "l \<in> set ls" and "\<not> blank_line l"
    and "malformed_model_link chk l \<or> malformed_dataset_link chk l"
  shows "isl (parse_project_file chk ahead ls)"
  unfolding parse_project_file_def
  using assms(1,2) parse_line_malformed [OF assms(3)] by (rule parse_lines_error)

theorem parse_project_file_malformed_link_witness:
  "malformed_model_link no_bracket_check '',,https://host/onlyonesegment''
   \<and> isl (parse_project_file no_bracket_check []
            (demo_manifest @ ['',,https://host/onlyonesegment'']))
   \<and> parse_project_file no_bracket_check [] (demo_manifest @ ['',,https://host/onlyonesegment''])
       = Inl (ValueError ''Invalid Hugging Face URL: https://host/onlyonesegment'')
   \<and> malformed_dataset_link no_bracket_check '',https://example.org/data/set,''
   \<and> isl (parse_project_file no_bracket_check [8192]
            (demo_manifest @ ['',https://example.org/data/set,'']))"
proof -
  have m: "malformed_model_link no_bracket_check '',,https://host/onlyonesegment''"
    by code_simp
  have mb: "\<not> blank_line '',,https://host/onlyonesegment''"
    by code_simp
  have d: "malformed_dataset_link no_bracket_check '',https://example.org/data/set,''"
    by code_simp
  have db: "\<not> blank_line '',https://example.org/data/set,''"
    by code_simp
  have v: "parse_project_file no_bracket_check []
             (demo_manifest @ ['',,https://host/onlyonesegment''])
       = Inl (ValueError ''Invalid Hugging Face URL: https://host/onlyonesegment'')"
    by code_simp
  have 1: "isl (parse_project_file no_bracket_check []
            (demo_manifest @ ['',,https://host/onlyonesegment'']))"
    using m mb
    by (intro parse_project_file_malformed_link
              [where l = "'',,https://host/onlyonesegment''"]) simp_all
  have 2: "isl (parse_project_file no_bracket_check [8192]
            (demo_manifest @ ['',https://example.org/data/set,'']))"
    using d db
    by (intro parse_project_file_malformed_link
              [where l = "'',https://example.org/data/set,''"]) simp_all
  from m d v 1 2 show ?thesis by simp
qed

text \<open>
  C10: when a line of the manifest has three commas or more (more than three fields),
  \<open>parse_project_file\<close> raises: the result is an exception and no list of groups,
  whatever the other lines are and whatever the sizes of the reader's chunks.
\<close>

theorem parse_project_file_too_many_fields:
  assumes "l \<in> set ls" and "count_list l (CHR '','') \<ge> 3"
  shows "isl (parse_project_file chk ahead ls)"
proof -
  from assms(2) have "length (line_fields l) > 3" by (simp add: length_line_fields)
  then have "isl (parse_line chk (py_strip l))" by (simp add: parse_line_too_many)
  moreover from assms(2) have "\<not> blank_line l" by (intro commas_not_blank) simp
  ultimately show ?thesis
    unfolding parse_project_file_def using assms(1) by (intro parse_lines_error)
qed

theorem parse_project_file_too_many_fields_witness:
  "count_list ''a,b,c,d'' (CHR '','') = 3
   \<and> isl (parse_project_file no_bracket_check [8192] (demo_manifest @ [''a,b,c,d'']))
   \<and> parse_project_file no_bracket_check [] [''a,b,c,d'']
       = Inl (ValueError ''too many values to unpack (expected 3)'')"
proof -
  have c: "count_list ''a,b,c,d'' (CHR '','') = 3" by simp
  then have c': "count_list ''a,b,c,d'' (CHR '','') \<ge> 3" by simp
  have "isl (parse_project_file no_bracket_check [8192] (demo_manifest @ [''a,b,c,d'']))"
    by (rule parse_project_file_too_many_fields [OF _ c']) simp
  moreover have "parse_project_file no_bracket_check [] [''a,b,c,d'']
       = Inl (ValueError ''too many values to unpack (expected 3)'')"
    by code_simp
  ultimately show ?thesis using c by simp
qed

section \<open>Properties of the license metric\<close>

lemma license_tier_range: "0 \<le> fst (license_tier t) \<and> fst (license_tier t) \<le> 1"
  by (simp add: license_tier_def)

text \<open>No \<open>put\<close> raises when nothing is logged or when the sink takes every message.\<close>

lemma log_info_quiet:
  assumes "verbosity < 1 \<or> (\<forall>q m. fst (put q m) = None)"
  shows "\<exists>q'. log_info put verbosity m q = (None, q')"
proof (cases "verbosity < 1")
  case True
  then show ?thesis by (simp add: log_info_def)
next
  case False
  with assms have "fst (put q m) = None" by simp
  then show ?thesis by (cases "put q m") (simp add: log_info_def)
qed

lemma try_block_quiet:
  assumes "verbosity < 1 \<or> (\<forall>q m. fst (put q m) = None)"
  shows "\<exists>q'. try_block put lic verbosity q
           = (Inr (fst (license_tier (license_text_of lic))), q')"
proof -
  let ?m1 = "if (case lic of None \<Rightarrow> False | Some s \<Rightarrow> s \<noteq> [])
             then InfoLicenseFound lic else InfoNoLicense"
  obtain q1 where 1: "log_info put verbosity ?m1 q = (None, q1)"
    using log_info_quiet [OF assms] by blast
  obtain score msg where t: "license_tier (license_text_of lic) = (score, msg)"
    by (cases "license_tier (license_text_of lic)")
  obtain q2 where 2: "log_info put verbosity (InfoTier msg) q1 = (None, q2)"
    using log_info_quiet [OF assms] by blast
  from 1 2 t show ?thesis by (simp add: try_block_def Let_def)
qed

lemma try_block_score:
  assumes "try_block put lic verbosity q = (Inr score, q')"
  shows "score = fst (license_tier (license_text_of lic))"
  using assms
  by (auto simp: try_block_def Let_def split: prod.splits option.splits)

lemma try_except_score:
  assumes "try_except put lic verbosity q = (Inr score, q')"
  shows "score = fst (license_tier (license_text_of lic)) \<or> score = 0.5"
  using assms
  by (auto simp: try_except_def dest: try_block_score
           split: prod.splits sum.splits option.splits if_splits)

lemma try_except_range:
  assumes "try_except put lic verbosity q = (Inr score, q')"
  shows "0 \<le> score \<and> score \<le> 1"
  using try_except_score [OF assms] license_tier_range [of "license_text_of lic"] by auto

lemma calculate_returns_range:
  assumes "calculate_license_score put t0 t1 lic verbosity q = (Inr (score, lat), q')"
  shows "0 \<le> score \<and> score \<le> 1 \<and> lat = t1 - t0"
  using assms
  by (auto simp: calculate_license_score_def Let_def dest: try_except_range
           split: prod.splits sum.splits option.splits)

lemma calculate_quiet:
  assumes "verbosity < 1 \<or> (\<forall>q m. fst (put q m) = None)"
  shows "\<exists>q'. calculate_license_score put t0 t1 lic verbosity q
           = (Inr (fst (license_tier (license_text_of lic)), t1 - t0), q')"
proof -
  let ?s = "fst (license_tier (license_text_of lic))"
  obtain q1 where 1: "log_info put verbosity (InfoStarting lic) q = (None, q1)"
    using log_info_quiet [OF assms] by blast
  obtain q2 where 2: "try_block put lic verbosity q1 = (Inr ?s, q2)"
    using try_block_quiet [OF assms] by blast
  obtain q3 where 3: "log_info put verbosity (InfoFinished ?s (t1 - t0)) q2 = (None, q3)"
    using log_info_quiet [OF assms] by blast
  from 1 2 3 show ?thesis
    by (simp add: calculate_license_score_def try_except_def Let_def)
qed

lemma calculate_fallback:
  assumes "log_info put verbosity (InfoStarting lic) q = (None, q1)"
    and "try_block put lic verbosity q1 = (Inl e, q2)"
    and "is_Exception e"
    and "log_info put verbosity (CriticalError lic e) q2 = (None, q3)"
    and "log_info put verbosity (InfoFinished 0.5 (t1 - t0)) q3 = (None, q4)"
  shows "calculate_license_score put t0 t1 lic verbosity q = (Inr (0.5, t1 - t0), q4)"
  using assms by (simp add: calculate_license_score_def try_except_def Let_def)

lemma apache_text: "license_text_of (Some ''apache-2.0'') = ''apache-2.0''"
  by (simp add: license_text_of_def py_strip_def py_lower_def py_lower_char_def py_isspace_def)

lemma apache_tier: "fst (license_tier ''apache-2.0'') = 1"
  by (simp add: license_tier_def any_in_def permissive_licenses_def)

lemma queue_put_takes_all: "\<forall>q m. fst (queue_put q m) = None"
  by (simp add: queue_put_def)

text \<open>
  C2, as the code has it. For every license string or \<open>None\<close>, every verbosity and every
  log sink: (1) when the verbosity is below 1 or the \<open>put\<close> of the sink never raises, the
  function returns a score between 0 and 1 and the latency \<open>end_time - start_time\<close>;
  (2) whenever the function returns, its score lies between 0 and 1 and its latency is
  \<open>end_time - start_time\<close>, which is not negative when the clock was not set back between
  the two readings; (3) when a \<open>put\<close> inside the \<open>try\<close> raises an \<open>Exception\<close> and the
  \<open>put\<close> of the handler and the last \<open>put\<close> succeed, the function returns the fallback
  score 0.5.
\<close>

theorem calculate_license_score_result:
  "(verbosity < 1 \<or> (\<forall>q m. fst (put q m) = None)
      \<longrightarrow> (\<exists>score q'. calculate_license_score put t0 t1 lic verbosity q
                          = (Inr (score, t1 - t0), q')
                        \<and> 0 \<le> score \<and> score \<le> 1))
   \<and> (\<forall>score lat q'. calculate_license_score put t0 t1 lic verbosity q = (Inr (score, lat), q')
         \<longrightarrow> 0 \<le> score \<and> score \<le> 1 \<and> lat = t1 - t0 \<and> (t0 \<le> t1 \<longrightarrow> 0 \<le> lat))
   \<and> (\<forall>e q1 q2 q3 q4.
         log_info put verbosity (InfoStarting lic) q = (None, q1)
         \<and> try_block put lic verbosity q1 = (Inl e, q2)
         \<and> is_Exception e
         \<and> log_info put verbosity (CriticalError lic e) q2 = (None, q3)
         \<and> log_info put verbosity (InfoFinished 0.5 (t1 - t0)) q3 = (None, q4)
         \<longrightarrow> calculate_license_score put t0 t1 lic verbosity q = (Inr (0.5, t1 - t0), q4))"
proof (intro conjI impI allI)
  assume "verbosity < 1 \<or> (\<forall>q m. fst (put q m) = None)"
  from calculate_quiet [OF this, of t0 t1 lic q]
  show "\<exists>score q'. calculate_license_score put t0 t1 lic verbosity q
                          = (Inr (score, t1 - t0), q')
                        \<and> 0 \<le> score \<and> score \<le> 1"
    using license_tier_range [of "license_text_of lic"] by blast
next
  fix score lat q'
  assume r: "calculate_license_score put t0 t1 lic verbosity q = (Inr (score, lat), q')"
  from calculate_returns_range [OF r]
  show "0 \<le> score" "score \<le> 1" "lat = t1 - t0" by simp_all
  assume "t0 \<le> t1"
  with calculate_returns_range [OF r] show "0 \<le> lat" by simp
next
  fix e q1 q2 q3 q4
  assume "log_info put verbosity (InfoStarting lic) q = (None, q1)
         \<and> try_block put lic verbosity q1 = (Inl e, q2)
         \<and> is_Exception e
         \<and> log_info put verbosity (CriticalError lic e) q2 = (None, q3)
         \<and> log_info put verbosity (InfoFinished 0.5 (t1 - t0)) q3 = (None, q4)"
  then show "calculate_license_score put t0 t1 lic verbosity q = (Inr (0.5, t1 - t0), q4)"
    by (intro calculate_fallback [where e = e and ?q1.0 = q1 and ?q2.0 = q2 and ?q3.0 = q3])
       simp_all
qed

theorem calculate_license_score_result_witness:
  "(\<exists>score q'. calculate_license_score queue_put 10 12 (Some ''MIT'') 2 []
                  = (Inr (score, 12 - 10), q')
                \<and> 0 \<le> score \<and> score \<le> 1)
   \<and> (\<exists>score q'. calculate_license_score str_put 10 12 None 0 ''/tmp/log''
                  = (Inr (score, 12 - 10), q')
                \<and> 0 \<le> score \<and> score \<le> 1)
   \<and> calculate_license_score picky_put 10 12 (Some ''MIT'') 1 []
       = (Inr (0.5, 12 - 10),
          [InfoStarting (Some ''MIT''),
           CriticalError (Some ''MIT'') (OtherException ''RuntimeError''),
           InfoFinished 0.5 (12 - 10)])"
proof -
  have a: "(2::int) < 1 \<or> (\<forall>q m. fst (queue_put q m) = None)"
    using queue_put_takes_all by simp
  have b: "(0::int) < 1 \<or> (\<forall>q m. fst (str_put q m) = None)"
    by simp
  have c: "log_info picky_put 1 (InfoStarting (Some ''MIT'')) [] = (None, [InfoStarting (Some ''MIT'')])
         \<and> try_block picky_put (Some ''MIT'') 1 [InfoStarting (Some ''MIT'')]
             = (Inl (OtherException ''RuntimeError''), [InfoStarting (Some ''MIT'')])
         \<and> is_Exception (OtherException ''RuntimeError'')
         \<and> log_info picky_put 1 (CriticalError (Some ''MIT'') (OtherException ''RuntimeError''))
               [InfoStarting (Some ''MIT'')]
             = (None, [InfoStarting (Some ''MIT''),
                       CriticalError (Some ''MIT'') (OtherException ''RuntimeError'')])
         \<and> log_info picky_put 1 (InfoFinished 0.5 (12 - 10))
               [InfoStarting (Some ''MIT''),
                CriticalError (Some ''MIT'') (OtherException ''RuntimeError'')]
             = (None, [InfoStarting (Some ''MIT''),
                       CriticalError (Some ''MIT'') (OtherException ''RuntimeError''),
                       InfoFinished 0.5 (12 - 10)])"
    by (simp add: log_info_def try_block_def)
  from calculate_license_score_result [of 2 queue_put 10 12 "Some ''MIT''" "[]"] a
  have 1: "\<exists>score q'. calculate_license_score queue_put 10 12 (Some ''MIT'') 2 []
                  = (Inr (score, 12 - 10), q')
                \<and> 0 \<le> score \<and> score \<le> 1"
    by blast
  from calculate_license_score_result [of 0 str_put 10 12 None "''/tmp/log''"] b
  have 2: "\<exists>score q'. calculate_license_score str_put 10 12 None 0 ''/tmp/log''
                  = (Inr (score, 12 - 10), q')
                \<and> 0 \<le> score \<and> score \<le> 1"
    by blast
  from calculate_license_score_result [of 1 picky_put 10 12 "Some ''MIT''" "[]"] c
  have 3: "calculate_license_score picky_put 10 12 (Some ''MIT'') 1 []
       = (Inr (0.5, 12 - 10),
          [InfoStarting (Some ''MIT''),
           CriticalError (Some ''MIT'') (OtherException ''RuntimeError''),
           InfoFinished 0.5 (12 - 10)])"
    by blast
  from 1 2 3 show ?thesis by blast
qed

text \<open>
  C2, as the claim words it (any log sink, never raises, latency not negative), fails
  twice. With a \<open>str\<close> in the place of the queue and verbosity 1, the first \<open>put\<close>, which
  stands before the \<open>try\<close>, raises \<open>AttributeError\<close> and the function raises. With the
  clock set back between the two readings (12, then 10) the latency is \<open>-2\<close>.
\<close>

theorem calculate_license_score_result_counterexample:
  "calculate_license_score str_put 10 12 (Some ''mit'') 1 ''/tmp/log''
     = (Inl (OtherException ''AttributeError''), ''/tmp/log'')
   \<and> calculate_license_score queue_put 12 10 None 0 [] = (Inr (0.5, - 2), [])"
  by (simp add: calculate_license_score_def log_info_def str_put_def try_except_def
        try_block_def license_text_of_def license_tier_def any_in_def permissive_licenses_def)

text \<open>
  C9, as the code has it: on the license \<open>apache-2.0\<close>, when the verbosity is below 1 or
  the \<open>put\<close> of the sink never raises, the function returns the score 1 and the latency
  \<open>end_time - start_time\<close>, which is not negative when the clock was not set back
  between the two readings.
\<close>

theorem license_apache_score:
  assumes "verbosity < 1 \<or> (\<forall>q m. fst (put q m) = None)"
  shows "\<exists>lat q'. calculate_license_score put t0 t1 (Some ''apache-2.0'') verbosity q
                    = (Inr (1, lat), q')
                  \<and> lat = t1 - t0 \<and> (t0 \<le> t1 \<longrightarrow> 0 \<le> lat)"
  using calculate_quiet [OF assms, of t0 t1 "Some ''apache-2.0''" q]
  by (auto simp: apache_text apache_tier)

theorem license_apache_score_witness:
  "calculate_license_score queue_put 10 12 (Some ''apache-2.0'') 1 []
     = (Inr (1, 2),
        [InfoStarting (Some ''apache-2.0''), InfoLicenseFound (Some ''apache-2.0''),
         InfoTier ''Highly permissive license -> Score = 1.0'', InfoFinished 1 2])
   \<and> (\<exists>lat q'. calculate_license_score queue_put 10 12 (Some ''apache-2.0'') 1 []
                  = (Inr (1, lat), q') \<and> 0 \<le> lat)"
proof -
  have a: "(1::int) < 1 \<or> (\<forall>q m. fst (queue_put q m) = None)"
    using queue_put_takes_all by simp
  have v: "calculate_license_score queue_put 10 12 (Some ''apache-2.0'') 1 []
     = (Inr (1, 2),
        [InfoStarting (Some ''apache-2.0''), InfoLicenseFound (Some ''apache-2.0''),
         InfoTier ''Highly permissive license -> Score = 1.0'', InfoFinished 1 2])"
    by (simp add: calculate_license_score_def log_info_def queue_put_def try_except_def
          try_block_def apache_text license_tier_def any_in_def permissive_licenses_def)
  from license_apache_score [OF a, of 10 12 "[]"]
  have "\<exists>lat q'. calculate_license_score queue_put 10 12 (Some ''apache-2.0'') 1 []
                  = (Inr (1, lat), q') \<and> 0 \<le> lat"
    by auto
  with v show ?thesis by blast
qed

text \<open>
  C9, as the claim words it (any verbosity and log sink, latency not negative), fails
  twice on \<open>apache-2.0\<close>: with a \<open>str\<close> in the place of the queue and verbosity 1 the
  function raises \<open>AttributeError\<close>; with the clock set back between the two readings
  the latency is \<open>-2\<close>.
\<close>

theorem license_apache_score_counterexample:
  "calculate_license_score str_put 10 12 (Some ''apache-2.0'') 1 ''/tmp/log''
     = (Inl (OtherException ''AttributeError''), ''/tmp/log'')
   \<and> calculate_license_score queue_put 12 10 (Some ''apache-2.0'') 0 [] = (Inr (1, - 2), [])"
  by (simp add: calculate_license_score_def log_info_def str_put_def try_except_def
        try_block_def apache_text license_tier_def any_in_def permissive_licenses_def)

section \<open>Properties of the concurrent evaluator\<close>

lemma next_unit_less:
  assumes "pending \<noteq> []"
  shows "next_unit sched pending < length pending"
  using assms by (cases sched) (simp_all add: next_unit_def)

lemma remove_nth_set:
  assumes "i < length xs"
  shows "insert (xs ! i) (set (take i xs @ drop (Suc i) xs)) = set xs"
proof -
  have "set xs = set (take i xs @ xs ! i # drop (Suc i) xs)"
    using id_take_nth_drop [OF assms] by simp
  then show ?thesis by simp
qed

lemma remove_nth_distinct:
  assumes "i < length xs" and "distinct xs"
  shows "distinct (take i xs @ drop (Suc i) xs)
         \<and> xs ! i \<notin> set (take i xs @ drop (Suc i) xs)"
proof -
  have "distinct (take i xs @ xs ! i # drop (Suc i) xs)"
    using id_take_nth_drop [OF assms(1)] assms(2) by simp
  then show ?thesis by auto
qed

text \<open>
  Whatever the schedule, the names of the collected entries are the pending names: the
  same set, as many entries, and no name twice when no pending name stands twice.
\<close>

lemma collect_results_names:
  "set (map fst (collect_results reg fb inp sched pending)) = set pending
   \<and> length (collect_results reg fb inp sched pending) = length pending
   \<and> (distinct pending \<longrightarrow> distinct (map fst (collect_results reg fb inp sched pending)))"
proof (induction reg fb inp sched pending rule: collect_results.induct)
  case (1 reg fb inp sched pending)
  show ?case
  proof (cases "pending = []")
    case True
    then show ?thesis by (subst (1 2 3) collect_results.simps) simp
  next
    case False
    define i where "i = next_unit sched pending"
    define rest where "rest = take i pending @ drop (Suc i) pending"
    have i: "i < length pending" unfolding i_def by (rule next_unit_less [OF False])
    have eq: "collect_results reg fb inp sched pending
              = (pending ! i, run_metric reg fb inp (pending ! i))
                # collect_results reg fb inp (tl sched) rest"
      using False by (subst collect_results.simps) (simp add: Let_def i_def rest_def)
    have IH: "set (map fst (collect_results reg fb inp (tl sched) rest)) = set rest
        \<and> length (collect_results reg fb inp (tl sched) rest) = length rest
        \<and> (distinct rest \<longrightarrow> distinct (map fst (collect_results reg fb inp (tl sched) rest)))"
      using "1.IH" [OF False i_def refl] by (simp add: rest_def)
    have s: "insert (pending ! i) (set rest) = set pending"
      unfolding rest_def by (rule remove_nth_set [OF i])
    have l: "Suc (length rest) = length pending"
      using i by (simp add: rest_def min_def)
    have d: "distinct pending \<Longrightarrow> distinct rest \<and> pending ! i \<notin> set rest"
      unfolding rest_def by (rule remove_nth_distinct [OF i])
    from IH s l d show ?thesis unfolding eq by auto
  qed
qed

lemma resolve_ok:
  assumes "list_all (\<lambda>n. reg n \<noteq> None) tasks"
  shows "resolve_task_list reg tasks = Inr (remdups tasks)"
  using assms by (simp add: resolve_task_list_def)

text \<open>
  C1, on the evaluator as the specification describes it: when every name of the task
  list is in the registry, then for every schedule, every input record and every
  behaviour of the metrics (returning, raising, returning something malformed),
  \<open>run_concurrently\<close> returns a report whose names are exactly the names of the task
  list, each once.
\<close>

theorem run_concurrently_keys:
  assumes "list_all (\<lambda>n. reg n \<noteq> None) task_list"
  shows "\<exists>report lat. run_concurrently reg fb combine sched task_list inp = Inr (report, lat)
           \<and> set (map fst report) = set task_list
           \<and> distinct (map fst report)
           \<and> dom (map_of report) = set task_list"
proof -
  let ?r = "collect_results reg fb inp sched (remdups task_list)"
  have "run_concurrently reg fb combine sched task_list inp
          = Inr (?r, combine (map (\<lambda>(name, score, latency). latency) ?r))"
    by (simp add: run_concurrently_def resolve_ok [OF assms] Let_def)
  moreover have "set (map fst ?r) = set task_list" "distinct (map fst ?r)"
    using collect_results_names [of reg fb inp sched "remdups task_list"] by simp_all
  moreover from this have "dom (map_of ?r) = set task_list"
    by (simp add: dom_map_of_conv_image_fst)
  ultimately show ?thesis by blast
qed

theorem run_concurrently_keys_witness:
  "list_all (\<lambda>n. demo_registry n \<noteq> None) [''license'', ''size'', ''ramp_up'']
   \<and> run_concurrently demo_registry (\<lambda>n. (0.5, 0)) sum_list [5, 3, 1]
        [''license'', ''size'', ''ramp_up''] ()
       = Inr ([(''ramp_up'', 0.5, 0), (''size'', 0.5, 0), (''license'', 1, 0)], 0)
   \<and> (\<exists>report lat.
        run_concurrently demo_registry (\<lambda>n. (0.5, 0)) sum_list [5, 3, 1]
          [''license'', ''size'', ''ramp_up''] () = Inr (report, lat)
        \<and> set (map fst report) = set [''license'', ''size'', ''ramp_up'']
        \<and> distinct (map fst report)
        \<and> dom (map_of report) = set [''license'', ''size'', ''ramp_up''])"
proof -
  have h: "list_all (\<lambda>n. demo_registry n \<noteq> None) [''license'', ''size'', ''ramp_up'']"
    by (simp add: demo_registry_def)
  have v: "run_concurrently demo_registry (\<lambda>n. (0.5, 0)) sum_list [5, 3, 1]
        [''license'', ''size'', ''ramp_up''] ()
       = Inr ([(''ramp_up'', 0.5, 0), (''size'', 0.5, 0), (''license'', 1, 0)], 0)"
    by code_simp
  show ?thesis
    using h v run_concurrently_keys [OF h, of "\<lambda>n. (0.5, 0)" sum_list "[5, 3, 1]" "()"]
    by blast
qed

end
